theory Spec2Isabelle
  imports Complex_Main "HOL-Library.Word"
begin

section \<open>The benchmark harness of labs/module9/C/Async/main.cpp\<close>

subsection \<open>Data model\<close>

text \<open>
  An image buffer is a flat sequence of \<^verbatim>\<open>unsigned char\<close> samples. The geometry
  \<^verbatim>\<open>long w, h, ch\<close> is kept as mathematical integers; the places where the source
  computes with them in \<^verbatim>\<open>long\<close> or \<^verbatim>\<open>int\<close> carry their range checks explicitly.
\<close>

type_synonym byte = "8 word"
type_synonym buffer = "byte list"

record image =
  pixels :: buffer
  width :: int
  height :: int
  channels :: int

text \<open>The four buffers \<^verbatim>\<open>main\<close> holds pointers to, and the three extern blur routines.\<close>

datatype buf = Data | Output1 | Output2 | Output3

datatype variant = Blur5 | Blur5_serial | Blur5_parallel

text \<open>
  Every way the process can end other than by returning from \<^verbatim>\<open>main\<close>: a fatal
  failure of a collaborator, an exception of \<^verbatim>\<open>new[]\<close>, or undefined behaviour.
\<close>

datatype fault = LoadFailed | StoreFailed | BadArrayLength | SignedOverflow | OutOfBounds

datatype outcome = Exited int | Aborted fault

text \<open>
  A line of standard output. \<^verbatim>\<open>TimeTaken l d\<close> stands for
  \<^verbatim>\<open>printf("Time taken for <l>: %.4f seconds\n", d)\<close>; the \<^verbatim>\<open>double\<close> is kept as a
  real number and its decimal rendering is not modelled. Lines are kept without the
  trailing newline.
\<close>

datatype line = TimeTaken string real | Text string

text \<open>What the process does that is visible from outside \<^verbatim>\<open>main\<close>, in program order.\<close>

datatype event =
    ReadImage string
  | New buf int
  | Call variant buf buf
  | Wtime
  | Printf line
  | Fprintf_stderr string
  | Memcpy buf buf int
  | WriteImage string buffer
  | Delete buf

record run =
  exit_status :: outcome
  events :: "event list"

text \<open>
  The command line: \<^verbatim>\<open>argv[0]\<close> is the program name supplied by the hosted
  environment, \<^verbatim>\<open>argv[1..]\<close> are the positional arguments, so \<^verbatim>\<open>argc\<close> is one more
  than their number.
\<close>

record cmdline =
  argv0 :: string
  args :: "string list"

definition argc :: "cmdline \<Rightarrow> int" where
  "argc c = 1 + int (length (args c))"

subsection \<open>The collaborators\<close>

text \<open>
  A blur routine \<^verbatim>\<open>void f(unsigned char* src, unsigned char* dst, long w, long h, long ch)\<close>
  is declared \<^verbatim>\<open>extern "C"\<close> and defined elsewhere. It reads the source buffer and
  decides every byte of the destination region, possibly from what the region held
  before: it is a function from the two buffers and the geometry to the byte left at
  each index of the destination.
\<close>

type_synonym blur_fn = "buffer \<Rightarrow> buffer \<Rightarrow> int \<Rightarrow> int \<Rightarrow> int \<Rightarrow> nat \<Rightarrow> byte"

text \<open>
  Modelled from the spec: \<^verbatim>\<open>imageWrapper.h\<close> and its implementation are missing.
  \<^verbatim>\<open>readImage\<close> is the spec's \<^verbatim>\<open>load(path) -> (pixels, width, height, channels)\<close>,
  fatal to the process on failure (\<open>None\<close>); \<^verbatim>\<open>writeImage\<close> is the spec's
  \<^verbatim>\<open>store(path, pixels)\<close>, fatal on failure (\<open>False\<close>). The source passes only the
  path to \<^verbatim>\<open>writeImage\<close>: the samples it stores are those of the buffer that
  \<^verbatim>\<open>readImage\<close> returned, as \<^verbatim>\<open>main\<close> has left them.

  \<open>uninit\<close> gives the indeterminate initial contents of the arrays that \<^verbatim>\<open>new[]\<close>
  returns, and \<open>omp_get_wtime k\<close> is the value of the \<open>k\<close>-th clock read.
\<close>

record env =
  readImage :: "string \<Rightarrow> image option"
  writeImage :: "string \<Rightarrow> buffer \<Rightarrow> bool"
  blur5 :: blur_fn
  blur5_serial :: blur_fn
  blur5_parallel :: blur_fn
  uninit :: "buf \<Rightarrow> nat \<Rightarrow> byte"
  omp_get_wtime :: "nat \<Rightarrow> real"

subsection \<open>Machine arithmetic of the harness\<close>

definition INT_MAX :: int where
  "INT_MAX = 2147483647"

definition LONG_MAX :: int where
  "LONG_MAX = 9223372036854775807"

text \<open>Signed \<^verbatim>\<open>long\<close> multiplication: a product out of range is undefined behaviour.\<close>

definition long_mul :: "int \<Rightarrow> int \<Rightarrow> fault + int" where
  "long_mul a b =
     (if - LONG_MAX - 1 \<le> a * b \<and> a * b \<le> LONG_MAX then Inr (a * b) else Inl SignedOverflow)"

text \<open>The expression \<^verbatim>\<open>w*h*ch\<close>, which the source evaluates left to right.\<close>

definition sample_count :: "int \<Rightarrow> int \<Rightarrow> int \<Rightarrow> fault + int" where
  "sample_count w h ch =
     (case long_mul w h of
        Inl f \<Rightarrow> Inl f
      | Inr wh \<Rightarrow> long_mul wh ch)"

subsection \<open>The statements of main\<close>

text \<open>
  \<^verbatim>\<open>new unsigned char[n]\<close> for \<open>0 \<le> n\<close>: \<open>n\<close> bytes of indeterminate contents. The
  allocation is taken to succeed; a negative length is the fault \<open>BadArrayLength\<close> of
  \<^verbatim>\<open>main\<close> below.
\<close>

definition new_array :: "env \<Rightarrow> buf \<Rightarrow> int \<Rightarrow> buffer" where
  "new_array e b n = map (uninit e b) [0..<nat n]"

text \<open>A call \<^verbatim>\<open>f(src, dst, w, h, ch)\<close>: the destination region after the call.\<close>

definition call :: "blur_fn \<Rightarrow> buffer \<Rightarrow> buffer \<Rightarrow> int \<Rightarrow> int \<Rightarrow> int \<Rightarrow> buffer" where
  "call f src dst w h ch = map (f src dst w h ch) [0..<length dst]"

text \<open>
  The comparison loop of lines 46 to 52,
  \<^verbatim>\<open>for(int i = 0; i < w*h*ch; i++) if(output1[i] != output2[i]) { success = false; break; }\<close>
  from the counter value \<open>i\<close> on; \<open>n\<close> is the value of \<^verbatim>\<open>w*h*ch\<close>. It returns the
  values of \<^verbatim>\<open>success\<close> and \<^verbatim>\<open>i\<close> at the exit of the loop. The counter is an
  \<^verbatim>\<open>int\<close> compared against a \<^verbatim>\<open>long\<close>: incrementing it at \<open>INT_MAX\<close> is undefined
  behaviour, and so is a read outside either array.
\<close>

function check_loop :: "buffer \<Rightarrow> buffer \<Rightarrow> int \<Rightarrow> int \<Rightarrow> fault + (bool \<times> int)" where
  "check_loop output1 output2 n i =
     (if i < n then
        (if i < 0 \<or> int (length output1) \<le> i \<or> int (length output2) \<le> i then Inl OutOfBounds
         else if output1 ! nat i \<noteq> output2 ! nat i then Inr (False, i)
         else if i = INT_MAX then Inl SignedOverflow
         else check_loop output1 output2 n (i + 1))
      else Inr (True, i))"
  by pat_completeness auto
termination
  by (relation "measure (\<lambda>(output1, output2, n, i). nat (n - i))") auto

declare check_loop.simps [simp del]

text \<open>\<^verbatim>\<open>memcpy(dst, src, n)\<close> for \<open>0 \<le> n\<close>: the destination region after the copy.\<close>

definition memcpy :: "buffer \<Rightarrow> buffer \<Rightarrow> int \<Rightarrow> fault + buffer" where
  "memcpy dst src n =
     (if nat n \<le> length dst \<and> nat n \<le> length src
      then Inr (take (nat n) src @ drop (nat n) dst)
      else Inl OutOfBounds)"

definition usage :: "string \<Rightarrow> string" where
  "usage prog = ''Usage: '' @ prog @ '' inFilename outFilename''"

definition correct_line :: line where
  "correct_line = Text ''Code results are correct.''"

definition incorrect_line :: line where
  "incorrect_line = Text ''Code results are incorrect.''"

definition verdict_line :: "bool \<Rightarrow> line" where
  "verdict_line success = (if success then correct_line else incorrect_line)"

text \<open>The events of lines 22 to 45, from the load up to the comparison loop.\<close>

definition events_before_check :: "env \<Rightarrow> string \<Rightarrow> int \<Rightarrow> event list" where
  "events_before_check e inFilename n =
     [ReadImage inFilename,
      New Output1 n, New Output2 n, New Output3 n,
      Call Blur5 Data Output3,
      Wtime,
      Call Blur5 Data Output1,
      Wtime,
      Printf (TimeTaken ''blur5'' (omp_get_wtime e 1 - omp_get_wtime e 0)),
      Printf (Text ''Running serial and baseline parallel for comparison...''),
      Wtime,
      Call Blur5_serial Data Output2,
      Wtime,
      Printf (TimeTaken ''serial blur5'' (omp_get_wtime e 3 - omp_get_wtime e 2)),
      Wtime,
      Call Blur5_parallel Data Output3,
      Wtime,
      Printf (TimeTaken ''baseline parallel blur5'' (omp_get_wtime e 5 - omp_get_wtime e 4)),
      Printf (Text ''Checking results for comparison...'')]"

definition main :: "env \<Rightarrow> cmdline \<Rightarrow> run" where
  "main e c =
     (if argc c < 3 then
        \<lparr>exit_status = Exited (- 1), events = [Fprintf_stderr (usage (argv0 c))]\<rparr>
      else
        let inFilename = args c ! 0; outFilename = args c ! 1 in
        (case readImage e inFilename of
           None \<Rightarrow> \<lparr>exit_status = Aborted LoadFailed, events = [ReadImage inFilename]\<rparr>
         | Some img \<Rightarrow>
             let data = pixels img; w = width img; h = height img; ch = channels img in
             (case sample_count w h ch of
                Inl f \<Rightarrow> \<lparr>exit_status = Aborted f, events = [ReadImage inFilename]\<rparr>
              | Inr n \<Rightarrow>
                  if n < 0 then
                    \<lparr>exit_status = Aborted BadArrayLength, events = [ReadImage inFilename]\<rparr>
                  else
                    let output1 = new_array e Output1 n;
                        output2 = new_array e Output2 n;
                        output3 = new_array e Output3 n;
                        output3 = call (blur5 e) data output3 w h ch;
                        output1 = call (blur5 e) data output1 w h ch;
                        output2 = call (blur5_serial e) data output2 w h ch;
                        output3 = call (blur5_parallel e) data output3 w h ch;
                        tr = events_before_check e inFilename n
                    in
                    (case check_loop output1 output2 n 0 of
                       Inl f \<Rightarrow> \<lparr>exit_status = Aborted f, events = tr\<rparr>
                     | Inr (success, i) \<Rightarrow>
                         let tr = tr @ [Printf (verdict_line success)] in
                         (case memcpy data output1 n of
                            Inl f \<Rightarrow> \<lparr>exit_status = Aborted f, events = tr\<rparr>
                          | Inr data \<Rightarrow>
                              let tr = tr @ [Memcpy Data Output1 n, WriteImage outFilename data] in
                              if writeImage e outFilename data then
                                \<lparr>exit_status = Exited 0,
                                 events = tr @ [Delete Output1, Delete Output2, Delete Output3]\<rparr>
                              else
                                \<lparr>exit_status = Aborted StoreFailed, events = tr\<rparr>)))))"

subsection \<open>Observations of a run\<close>

fun printed :: "event \<Rightarrow> line list" where
  "printed (Printf l) = [l]"
| "printed _ = []"

definition stdout :: "run \<Rightarrow> line list" where
  "stdout r = concat (map printed (events r))"

fun is_duration :: "line \<Rightarrow> bool" where
  "is_duration (TimeTaken l d) = True"
| "is_duration (Text s) = False"

definition is_verdict :: "line \<Rightarrow> bool" where
  "is_verdict l = (l = correct_line \<or> l = incorrect_line)"

definition verdict :: "run \<Rightarrow> line list" where
  "verdict r = filter is_verdict (stdout r)"

text \<open>The path and the samples of every hand-off to \<^verbatim>\<open>writeImage\<close>.\<close>

fun handed_over :: "event \<Rightarrow> (string \<times> buffer) list" where
  "handed_over (WriteImage p b) = [(p, b)]"
| "handed_over _ = []"

definition store_calls :: "run \<Rightarrow> (string \<times> buffer) list" where
  "store_calls r = concat (map handed_over (events r))"

text \<open>The calls of the blur routines and the clock reads, in program order.\<close>

fun is_call_or_clock :: "event \<Rightarrow> bool" where
  "is_call_or_clock (Call v s d) = True"
| "is_call_or_clock Wtime = True"
| "is_call_or_clock _ = False"

fun calls_variant :: "variant \<Rightarrow> event \<Rightarrow> bool" where
  "calls_variant v (Call v' s d) = (v = v')"
| "calls_variant v _ = False"

definition invocations :: "variant \<Rightarrow> run \<Rightarrow> nat" where
  "invocations v r = length (filter (calls_variant v) (events r))"

subsection \<open>Well-formed images and the contents of the output buffers\<close>

definition samples :: "image \<Rightarrow> int" where
  "samples img = width img * height img * channels img"

text \<open>
  The geometry for which the harness has defined behaviour: \<^verbatim>\<open>w*h*ch\<close> is computed
  without overflow, is a legal array length and fits the \<^verbatim>\<open>int\<close> counter of the
  comparison loop.
\<close>

definition geometry_ok :: "image \<Rightarrow> bool" where
  "geometry_ok img =
     (case sample_count (width img) (height img) (channels img) of
        Inl f \<Rightarrow> False
      | Inr n \<Rightarrow> 0 \<le> n \<and> n \<le> INT_MAX)"

text \<open>The loaded buffer holds exactly \<^verbatim>\<open>w*h*ch\<close> samples.\<close>

definition image_ok :: "image \<Rightarrow> bool" where
  "image_ok img = (geometry_ok img \<and> int (length (pixels img)) = samples img)"

text \<open>
  What the three output arrays hold after lines 30, 33, 38 and 42: \<open>warmup_of\<close> is
  \<^verbatim>\<open>output3\<close> after the untimed call of line 30, the others are \<^verbatim>\<open>output1\<close>,
  \<^verbatim>\<open>output2\<close> and \<^verbatim>\<open>output3\<close> as the comparison loop finds them.
\<close>

definition warmup_of :: "env \<Rightarrow> image \<Rightarrow> buffer" where
  "warmup_of e img =
     call (blur5 e) (pixels img) (new_array e Output3 (samples img))
       (width img) (height img) (channels img)"

definition output1_of :: "env \<Rightarrow> image \<Rightarrow> buffer" where
  "output1_of e img =
     call (blur5 e) (pixels img) (new_array e Output1 (samples img))
       (width img) (height img) (channels img)"

definition output2_of :: "env \<Rightarrow> image \<Rightarrow> buffer" where
  "output2_of e img =
     call (blur5_serial e) (pixels img) (new_array e Output2 (samples img))
       (width img) (height img) (channels img)"

definition output3_of :: "env \<Rightarrow> image \<Rightarrow> buffer" where
  "output3_of e img =
     call (blur5_parallel e) (pixels img) (warmup_of e img)
       (width img) (height img) (channels img)"

subsection \<open>Concrete runs\<close>

definition ex_image :: image where
  "ex_image = \<lparr>pixels = [10, 20], width = 2, height = 1, channels = 1\<rparr>"

definition ex_cmd :: cmdline where
  "ex_cmd = \<lparr>argv0 = ''blur'', args = [''in.png'', ''out.png'']\<rparr>"

text \<open>All three routines copy the source: the two compared outputs agree.\<close>

definition ex_env_agree :: env where
  "ex_env_agree =
     \<lparr>readImage = (\<lambda>p. if p = ''in.png'' then Some ex_image else None),
      writeImage = (\<lambda>p b. True),
      blur5 = (\<lambda>src dst w h ch i. src ! i),
      blur5_serial = (\<lambda>src dst w h ch i. src ! i),
      blur5_parallel = (\<lambda>src dst w h ch i. src ! i),
      uninit = (\<lambda>b i. 0),
      omp_get_wtime = (\<lambda>k. real k)\<rparr>"

text \<open>\<^verbatim>\<open>blur5\<close> is off by one in the second sample: the two compared outputs differ.\<close>

definition ex_env_differ :: env where
  "ex_env_differ =
     \<lparr>readImage = (\<lambda>p. if p = ''in.png'' then Some ex_image else None),
      writeImage = (\<lambda>p b. True),
      blur5 = (\<lambda>src dst w h ch i. if i = 1 then src ! i + 1 else src ! i),
      blur5_serial = (\<lambda>src dst w h ch i. src ! i),
      blur5_parallel = (\<lambda>src dst w h ch i. src ! i),
      uninit = (\<lambda>b i. 0),
      omp_get_wtime = (\<lambda>k. real k)\<rparr>"

text \<open>A degenerate image of width 0.\<close>

definition ex_empty_image :: image where
  "ex_empty_image = \<lparr>pixels = [], width = 0, height = 3, channels = 3\<rparr>"

definition ex_env_empty :: env where
  "ex_env_empty =
     \<lparr>readImage = (\<lambda>p. Some ex_empty_image),
      writeImage = (\<lambda>p b. True),
      blur5 = (\<lambda>src dst w h ch i. 1),
      blur5_serial = (\<lambda>src dst w h ch i. 2),
      blur5_parallel = (\<lambda>src dst w h ch i. 3),
      uninit = (\<lambda>b i. 0),
      omp_get_wtime = (\<lambda>k. real k)\<rparr>"

text \<open>A command line with one positional argument only.\<close>

definition ex_cmd_short :: cmdline where
  "ex_cmd_short = \<lparr>argv0 = ''blur'', args = [''in.png'']\<rparr>"

section \<open>The blur variants\<close>

text \<open>
  Modelled from the spec: the definitions of \<^verbatim>\<open>blur5\<close> and \<^verbatim>\<open>blur5_serial\<close> are
  missing from the sources, which only declare and call them. What follows is the
  specification's Stencil Kernel (section 4.1), its Sequential Reference (4.2) and its
  Optimized Parallel variant (4.3), over natural-number geometry.
\<close>

text \<open>
  Modelled from the spec: the rounding of the average in the missing kernel, "round-half-up or truncate", which the specification
  leaves open and requires to be fixed once for every variant: a parameter shared by
  both variants.
\<close>

datatype rounding = Truncate | Round_half_up

text \<open>Modelled from the spec: the fixed stencil radius of the missing kernel. A 5-wide window per axis: two samples on each side of the target.\<close>

definition radius :: nat where
  "radius = 2"

text \<open>Modelled from the spec: the buffer layout the missing routines use, sample index = (row * width + col) * channels + channel.\<close>

definition sample_index :: "nat \<Rightarrow> nat \<Rightarrow> nat \<Rightarrow> nat \<Rightarrow> nat \<Rightarrow> nat" where
  "sample_index w ch row col c = (row * w + col) * ch + c"

text \<open>
  Modelled from the spec: the boundary policy of the missing kernel. The positions of the window along one axis of the given extent, clamped to the valid
  region.
\<close>

definition window :: "nat \<Rightarrow> nat \<Rightarrow> nat list" where
  "window extent centre =
     [(if centre < radius then 0 else centre - radius) ..< min extent (centre + radius + 1)]"

text \<open>Modelled from the spec: the numeric semantics of the missing kernel. The average of \<open>count\<close> samples whose sum is \<open>accum\<close>, rounded.\<close>

definition round_div :: "rounding \<Rightarrow> nat \<Rightarrow> nat \<Rightarrow> nat" where
  "round_div rnd accum count =
     (case rnd of
        Truncate \<Rightarrow> accum div count
      | Round_half_up \<Rightarrow> (2 * accum + count) div (2 * count))"

text \<open>
  Modelled from the spec: the Stencil Kernel, whose source is missing: the unweighted average of the in-bounds samples of the window
  around (row, col), in the channel of the target, accumulated in a wider integer; the
  divisor is the number of in-bounds samples.
\<close>

definition stencil_kernel ::
    "rounding \<Rightarrow> buffer \<Rightarrow> nat \<Rightarrow> nat \<Rightarrow> nat \<Rightarrow> nat \<Rightarrow> nat \<Rightarrow> nat \<Rightarrow> byte" where
  "stencil_kernel rnd src w h ch row col c =
     (let neighbours =
            concat (map (\<lambda>r. map (\<lambda>q. src ! sample_index w ch r q c) (window w col))
                      (window h row));
          accum = sum_list (map unat neighbours)
      in of_nat (round_div rnd accum (length neighbours)))"

text \<open>Modelled from the spec: one output row of the missing routines: every column, and every channel of it, in order.\<close>

definition blur_row :: "rounding \<Rightarrow> buffer \<Rightarrow> nat \<Rightarrow> nat \<Rightarrow> nat \<Rightarrow> nat \<Rightarrow> buffer" where
  "blur_row rnd src w h ch row =
     concat (map (\<lambda>col. map (\<lambda>c. stencil_kernel rnd src w h ch row col c) [0..<ch]) [0..<w])"

text \<open>
  Modelled from the spec: the Sequential Reference, the missing \<^verbatim>\<open>blur5_serial\<close>: the kernel at every (row, col, channel) in row-major order;
  the output buffer fully populated.
\<close>

definition sequential_reference :: "rounding \<Rightarrow> buffer \<Rightarrow> nat \<Rightarrow> nat \<Rightarrow> nat \<Rightarrow> buffer" where
  "sequential_reference rnd src w h ch = concat (map (blur_row rnd src w h ch) [0..<h])"

text \<open>
  Modelled from the spec: the partition of the missing Optimized Parallel variant: rows divided by the worker count,
  the remainder distributed to the first few workers, the chunks contiguous.
\<close>

definition chunk_size :: "nat \<Rightarrow> nat \<Rightarrow> nat \<Rightarrow> nat" where
  "chunk_size h workers k = h div workers + (if k < h mod workers then 1 else 0)"

definition chunk_start :: "nat \<Rightarrow> nat \<Rightarrow> nat \<Rightarrow> nat" where
  "chunk_start h workers k = sum_list (map (chunk_size h workers) [0..<k])"

text \<open>
  Modelled from the spec: a worker of the missing Optimized Parallel variant writing the
  samples \<open>bs\<close> at offset \<open>off\<close> of the shared output buffer.
  A write past the end of the buffer is the defect the specification calls fatal
  (\<open>None\<close>).
\<close>

definition write_rows :: "buffer \<Rightarrow> nat \<Rightarrow> buffer \<Rightarrow> buffer option" where
  "write_rows dst off bs =
     (if off + length bs \<le> length dst
      then Some (take off dst @ bs @ drop (off + length bs) dst)
      else None)"

text \<open>Modelled from the spec: worker \<open>k\<close> of the missing Optimized Parallel variant: it computes its chunk of rows from the source and writes only those rows.\<close>

definition worker ::
    "rounding \<Rightarrow> nat \<Rightarrow> buffer \<Rightarrow> nat \<Rightarrow> nat \<Rightarrow> nat \<Rightarrow> nat \<Rightarrow> buffer \<Rightarrow> buffer option" where
  "worker rnd workers src w h ch k dst =
     (let first = chunk_start h workers k;
          rows = [first ..< first + chunk_size h workers k]
      in write_rows dst (first * (w * ch)) (concat (map (blur_row rnd src w h ch) rows)))"

text \<open>
  Modelled from the spec: the Optimized Parallel variant, the missing \<^verbatim>\<open>blur5\<close>, with the given number of workers on the destination
  buffer \<open>dst\<close>. \<open>sched\<close> is the order in which the workers' writes land in the
  buffer; the call returns after the last of them.
\<close>

definition optimized_parallel ::
    "rounding \<Rightarrow> nat \<Rightarrow> nat list \<Rightarrow> buffer \<Rightarrow> buffer \<Rightarrow> nat \<Rightarrow> nat \<Rightarrow> nat \<Rightarrow> buffer option" where
  "optimized_parallel rnd workers sched src dst w h ch =
     fold (\<lambda>k acc. case acc of None \<Rightarrow> None | Some d \<Rightarrow> worker rnd workers src w h ch k d)
       sched (Some dst)"

text \<open>Modelled from the spec: the invariant of an image geometry and its buffer.\<close>

definition valid_geometry :: "buffer \<Rightarrow> nat \<Rightarrow> nat \<Rightarrow> nat \<Rightarrow> bool" where
  "valid_geometry src w h ch = (0 < w \<and> 0 < h \<and> 0 < ch \<and> length src = w * h * ch)"

section \<open>Properties of the harness\<close>

subsection \<open>The comparison loop\<close>

lemma check_loop_all_equal:
  assumes "0 \<le> i" "i \<le> n" "n \<le> INT_MAX" "length o1 = nat n" "length o2 = nat n"
    and "\<And>j. i \<le> j \<Longrightarrow> j < n \<Longrightarrow> o1 ! nat j = o2 ! nat j"
  shows "check_loop o1 o2 n i = Inr (True, n)"
  using assms
proof (induction o1 o2 n i rule: check_loop.induct)
  case (1 o1 o2 n i)
  show ?case
  proof (cases "i < n")
    case False
    with "1.prems" show ?thesis by (simp add: check_loop.simps)
  next
    case True
    with "1.prems" have a: "\<not> (i < 0 \<or> int (length o1) \<le> i \<or> int (length o2) \<le> i)"
      and b: "o1 ! nat i = o2 ! nat i" and c: "i \<noteq> INT_MAX"
      by auto
    have "check_loop o1 o2 n (i + 1) = Inr (True, n)"
      using "1.IH" [OF True a _ c] b "1.prems" True by simp
    with True a b c show ?thesis
      by (subst check_loop.simps) simp
  qed
qed

lemma check_loop_first_mismatch:
  assumes "0 \<le> i" "i \<le> k" "k < n" "n \<le> INT_MAX" "length o1 = nat n" "length o2 = nat n"
    and "o1 ! nat k \<noteq> o2 ! nat k"
    and "\<And>j. i \<le> j \<Longrightarrow> j < k \<Longrightarrow> o1 ! nat j = o2 ! nat j"
  shows "check_loop o1 o2 n i = Inr (False, k)"
  using assms
proof (induction o1 o2 n i rule: check_loop.induct)
  case (1 o1 o2 n i)
  from "1.prems" have lt: "i < n" and a: "\<not> (i < 0 \<or> int (length o1) \<le> i \<or> int (length o2) \<le> i)"
    by auto
  show ?case
  proof (cases "i = k")
    case True
    with "1.prems" lt a show ?thesis
      by (subst check_loop.simps) simp
  next
    case False
    with "1.prems" have b: "o1 ! nat i = o2 ! nat i" and c: "i \<noteq> INT_MAX" and d: "i + 1 \<le> k"
      by auto
    have "check_loop o1 o2 n (i + 1) = Inr (False, k)"
      using "1.IH" [OF lt a _ c] b d "1.prems" by simp
    with lt a b c show ?thesis
      by (subst check_loop.simps) simp
  qed
qed


text \<open>
  Beyond \<open>INT_MAX\<close> samples the counter overflows before the loop is through, unless a
  mismatch stops it first.
\<close>

lemma check_loop_counter_overflow:
  assumes "0 \<le> i" "i \<le> INT_MAX" "INT_MAX < n" "length o1 = nat n" "length o2 = nat n"
    and "\<And>j. i \<le> j \<Longrightarrow> j \<le> INT_MAX \<Longrightarrow> o1 ! nat j = o2 ! nat j"
  shows "check_loop o1 o2 n i = Inl SignedOverflow"
  using assms
proof (induction o1 o2 n i rule: check_loop.induct)
  case (1 o1 o2 n i)
  from "1.prems" have lt: "i < n"
    and a: "\<not> (i < 0 \<or> int (length o1) \<le> i \<or> int (length o2) \<le> i)"
    and b: "o1 ! nat i = o2 ! nat i"
    by auto
  show ?case
  proof (cases "i = INT_MAX")
    case True
    with lt a b show ?thesis by (subst check_loop.simps) simp
  next
    case False
    have "check_loop o1 o2 n (i + 1) = Inl SignedOverflow"
      using "1.IH" [OF lt a _ False] b False "1.prems" by simp
    with lt a b False show ?thesis by (subst check_loop.simps) simp
  qed
qed

subsection \<open>Sound geometry and buffer lengths\<close>

lemma geometry_okD:
  assumes "geometry_ok img"
  shows "sample_count (width img) (height img) (channels img) = Inr (samples img)"
    and "0 \<le> samples img" and "samples img \<le> INT_MAX"
  using assms
  by (auto simp: geometry_ok_def sample_count_def long_mul_def samples_def
      split: sum.splits if_splits)

lemma length_call [simp]: "length (call f src dst w h ch) = length dst"
  by (simp add: call_def)

lemma length_new_array [simp]: "length (new_array e b n) = nat n"
  by (simp add: new_array_def)

lemma length_output1_of [simp]: "length (output1_of e img) = nat (samples img)"
  by (simp add: output1_of_def)

lemma length_output2_of [simp]: "length (output2_of e img) = nat (samples img)"
  by (simp add: output2_of_def)

subsection \<open>The verdict computed by the loop\<close>

lemma check_loop_equal_buffers:
  assumes "0 \<le> n" "n \<le> INT_MAX" "length o1 = nat n" "length o2 = nat n" "o1 = o2"
  shows "check_loop o1 o2 n 0 = Inr (True, n)"
  using assms by (intro check_loop_all_equal) auto

lemma first_mismatch_exists:
  assumes "length o1 = length o2" "o1 \<noteq> o2"
  obtains k where "k < length o1" "o1 ! k \<noteq> o2 ! k" "\<And>j. j < k \<Longrightarrow> o1 ! j = o2 ! j"
proof -
  from assms obtain m where m: "m < length o1" "o1 ! m \<noteq> o2 ! m"
    by (auto simp: list_eq_iff_nth_eq)
  define k where "k = (LEAST m. m < length o1 \<and> o1 ! m \<noteq> o2 ! m)"
  have "k < length o1 \<and> o1 ! k \<noteq> o2 ! k"
    unfolding k_def using m by (intro LeastI [of "\<lambda>m. m < length o1 \<and> o1 ! m \<noteq> o2 ! m" m]) simp
  moreover have "o1 ! j = o2 ! j" if "j < k" for j
  proof -
    from that have "\<not> (j < length o1 \<and> o1 ! j \<noteq> o2 ! j)"
      unfolding k_def by (rule not_less_Least)
    moreover from that \<open>k < length o1 \<and> o1 ! k \<noteq> o2 ! k\<close> have "j < length o1" by simp
    ultimately show ?thesis by simp
  qed
  ultimately show ?thesis using that by blast
qed

lemma check_loop_verdict:
  assumes "0 \<le> n" "n \<le> INT_MAX" "length o1 = nat n" "length o2 = nat n"
  shows "\<exists>i. check_loop o1 o2 n 0 = Inr (o1 = o2, i)"
proof (cases "o1 = o2")
  case True
  with assms show ?thesis by (auto simp: check_loop_equal_buffers)
next
  case False
  with assms obtain k where k: "k < length o1" "o1 ! k \<noteq> o2 ! k"
    "\<And>j. j < k \<Longrightarrow> o1 ! j = o2 ! j"
    by (metis first_mismatch_exists)
  have "check_loop o1 o2 n 0 = Inr (False, int k)"
  proof (rule check_loop_first_mismatch)
    show "o1 ! nat (int k) \<noteq> o2 ! nat (int k)" using k(2) by simp
    show "o1 ! nat j = o2 ! nat j" if "0 \<le> j" "j < int k" for j
      using that k(3) [of "nat j"] by simp
  qed (use assms k(1) in auto)
  with False show ?thesis by simp
qed

subsection \<open>Complete runs\<close>

text \<open>The run of a well-formed command line on an image of sound geometry.\<close>

lemma main_events:
  assumes "2 \<le> length (args c)" "readImage e (args c ! 0) = Some img" "geometry_ok img"
  shows "events (main e c) =
           events_before_check e (args c ! 0) (samples img) @
           Printf (verdict_line (output1_of e img = output2_of e img)) #
           (if nat (samples img) \<le> length (pixels img) then
              [Memcpy Data Output1 (samples img),
               WriteImage (args c ! 1) (output1_of e img @ drop (nat (samples img)) (pixels img))] @
              (if writeImage e (args c ! 1)
                    (output1_of e img @ drop (nat (samples img)) (pixels img))
               then [Delete Output1, Delete Output2, Delete Output3] else [])
            else [])"
proof -
  obtain i where "check_loop (output1_of e img) (output2_of e img) (samples img) 0
      = Inr (output1_of e img = output2_of e img, i)"
    using check_loop_verdict [of "samples img" "output1_of e img" "output2_of e img"]
      geometry_okD(2,3) [OF assms(3)] by auto
  then show ?thesis
    using assms(1,2) geometry_okD [OF assms(3)]
    by (simp add: main_def argc_def Let_def memcpy_def output1_of_def output2_of_def)
qed

lemma main_exit:
  assumes "2 \<le> length (args c)" "readImage e (args c ! 0) = Some img" "image_ok img"
    and "writeImage e (args c ! 1) (output1_of e img)"
  shows "exit_status (main e c) = Exited 0"
proof -
  have g: "geometry_ok img" and l: "length (pixels img) = nat (samples img)"
    using assms(3) by (auto simp: image_ok_def)
  obtain i where "check_loop (output1_of e img) (output2_of e img) (samples img) 0
      = Inr (output1_of e img = output2_of e img, i)"
    using check_loop_verdict [of "samples img" "output1_of e img" "output2_of e img"]
      geometry_okD(2,3) [OF g] by auto
  then show ?thesis
    using assms(1,2,4) geometry_okD [OF g] l
    by (simp add: main_def argc_def Let_def memcpy_def output1_of_def output2_of_def)
qed

subsection \<open>The concrete runs, evaluated\<close>

lemmas ex_defs = ex_env_agree_def ex_env_differ_def ex_env_empty_def ex_cmd_def ex_image_def ex_empty_image_def

lemmas eval_defs = main_def argc_def sample_count_def long_mul_def LONG_MAX_def
     new_array_def call_def check_loop.simps INT_MAX_def memcpy_def events_before_check_def verdict_line_def Let_def
     usage_def eval_nat_numeral

lemma ex_agree_run:
  "main ex_env_agree ex_cmd =
    \<lparr>exit_status = Exited 0,
     events =
      [ReadImage ''in.png'', New Output1 2, New Output2 2, New Output3 2,
       Call Blur5 Data Output3, Wtime, Call Blur5 Data Output1, Wtime,
       Printf (TimeTaken ''blur5'' 1),
       Printf (Text ''Running serial and baseline parallel for comparison...''),
       Wtime, Call Blur5_serial Data Output2, Wtime,
       Printf (TimeTaken ''serial blur5'' 1), Wtime,
       Call Blur5_parallel Data Output3, Wtime,
       Printf (TimeTaken ''baseline parallel blur5'' 1),
       Printf (Text ''Checking results for comparison...''),
       Printf correct_line, Memcpy Data Output1 2,
       WriteImage ''out.png'' [10, 20], Delete Output1, Delete Output2,
       Delete Output3]\<rparr>"
  by (simp add: ex_defs eval_defs)

lemma ex_differ_run:
  "main ex_env_differ ex_cmd =
    \<lparr>exit_status = Exited 0,
     events =
      [ReadImage ''in.png'', New Output1 2, New Output2 2, New Output3 2,
       Call Blur5 Data Output3, Wtime, Call Blur5 Data Output1, Wtime,
       Printf (TimeTaken ''blur5'' 1),
       Printf (Text ''Running serial and baseline parallel for comparison...''),
       Wtime, Call Blur5_serial Data Output2, Wtime,
       Printf (TimeTaken ''serial blur5'' 1), Wtime,
       Call Blur5_parallel Data Output3, Wtime,
       Printf (TimeTaken ''baseline parallel blur5'' 1),
       Printf (Text ''Checking results for comparison...''),
       Printf incorrect_line, Memcpy Data Output1 2,
       WriteImage ''out.png'' [10, 21], Delete Output1, Delete Output2,
       Delete Output3]\<rparr>"
  by (simp add: ex_defs eval_defs)

lemma ex_empty_run:
  "main ex_env_empty ex_cmd =
    \<lparr>exit_status = Exited 0,
     events =
      [ReadImage ''in.png'', New Output1 0, New Output2 0, New Output3 0,
       Call Blur5 Data Output3, Wtime, Call Blur5 Data Output1, Wtime,
       Printf (TimeTaken ''blur5'' 1),
       Printf (Text ''Running serial and baseline parallel for comparison...''),
       Wtime, Call Blur5_serial Data Output2, Wtime,
       Printf (TimeTaken ''serial blur5'' 1), Wtime,
       Call Blur5_parallel Data Output3, Wtime,
       Printf (TimeTaken ''baseline parallel blur5'' 1),
       Printf (Text ''Checking results for comparison...''),
       Printf correct_line, Memcpy Data Output1 0,
       WriteImage ''out.png'' [], Delete Output1, Delete Output2,
       Delete Output3]\<rparr>"
  by (simp add: ex_defs eval_defs)

lemma ex_image_ok: "image_ok ex_image" "geometry_ok ex_image" "samples ex_image = 2"
  by (simp_all add: image_ok_def geometry_ok_def samples_def ex_image_def sample_count_def long_mul_def LONG_MAX_def INT_MAX_def)

lemma ex_outputs:
  "output1_of ex_env_agree ex_image = [10, 20]"
  "output2_of ex_env_agree ex_image = [10, 20]"
  "output1_of ex_env_differ ex_image = [10, 21]"
  "output2_of ex_env_differ ex_image = [10, 20]"
  by (simp_all add: output1_of_def output2_of_def ex_defs samples_def call_def new_array_def eval_nat_numeral)



subsection \<open>What a complete run prints\<close>

lemma main_ignores_blur5_parallel: "main (e\<lparr>blur5_parallel := p\<rparr>) c = main e c"
  by (simp add: main_def events_before_check_def new_array_def Let_def
      split: option.split sum.split prod.split)

lemma stdout_main:
  assumes "2 \<le> length (args c)" "readImage e (args c ! 0) = Some img" "geometry_ok img"
  shows "stdout (main e c) =
     [TimeTaken ''blur5'' (omp_get_wtime e 1 - omp_get_wtime e 0),
      Text ''Running serial and baseline parallel for comparison...'',
      TimeTaken ''serial blur5'' (omp_get_wtime e 3 - omp_get_wtime e 2),
      TimeTaken ''baseline parallel blur5'' (omp_get_wtime e 5 - omp_get_wtime e 4),
      Text ''Checking results for comparison...'',
      verdict_line (output1_of e img = output2_of e img)]"
  by (auto simp: stdout_def main_events [OF assms] events_before_check_def)

lemma is_verdict_simps [simp]:
  "is_verdict (verdict_line b)"
  "\<not> is_verdict (TimeTaken l d)"
  "\<not> is_verdict (Text ''Running serial and baseline parallel for comparison...'')"
  "\<not> is_verdict (Text ''Checking results for comparison...'')"
  by (simp_all add: is_verdict_def verdict_line_def correct_line_def incorrect_line_def)

lemma verdict_main:
  assumes "2 \<le> length (args c)" "readImage e (args c ! 0) = Some img" "geometry_ok img"
  shows "verdict (main e c) = [verdict_line (output1_of e img = output2_of e img)]"
  by (simp add: verdict_def stdout_main [OF assms])

lemma correct_neq_incorrect [simp]: "correct_line \<noteq> incorrect_line" "incorrect_line \<noteq> correct_line"
  by (simp_all add: correct_line_def incorrect_line_def)

lemma buffers_differ_iff:
  assumes "length o1 = nat n" "length o2 = nat n"
  shows "(o1 \<noteq> o2) = (\<exists>i. 0 \<le> i \<and> i < n \<and> o1 ! nat i \<noteq> o2 ! nat i)"
proof
  assume "o1 \<noteq> o2"
  with assms obtain k where "k < length o1" "o1 ! k \<noteq> o2 ! k"
    by (auto simp: list_eq_iff_nth_eq)
  with assms show "\<exists>i. 0 \<le> i \<and> i < n \<and> o1 ! nat i \<noteq> o2 ! nat i"
    by (intro exI [of _ "int k"]) auto
next
  assume "\<exists>i. 0 \<le> i \<and> i < n \<and> o1 ! nat i \<noteq> o2 ! nat i"
  then show "o1 \<noteq> o2" by auto
qed

section \<open>Properties of the blur variants\<close>

subsection \<open>The kernel reads inside the source buffer\<close>

lemma window_bounds:
  assumes "r \<in> set (window extent centre)"
  shows "r < extent"
  using assms by (simp add: window_def)

lemma sample_index_in_bounds:
  assumes "r < h" "q < w" "c < ch"
  shows "sample_index w ch r q c < w * h * ch"
proof -
  from assms(1) have "Suc r * w \<le> h * w" by (intro mult_le_mono1) simp
  with assms(2) have "Suc (r * w + q) \<le> h * w" by simp
  then have "Suc (r * w + q) * ch \<le> h * w * ch" by (rule mult_le_mono1)
  with assms(3) show ?thesis by (simp add: sample_index_def mult.commute)
qed

lemma kernel_reads_in_bounds:
  assumes "valid_geometry src w h ch" "c < ch"
    and "r \<in> set (window h row)" "q \<in> set (window w col)"
  shows "sample_index w ch r q c < length src"
  using assms sample_index_in_bounds [of r h q w c ch]
  by (simp add: valid_geometry_def window_bounds)

lemma window_nonempty:
  assumes "centre < extent"
  shows "centre \<in> set (window extent centre)"
  using assms by (simp add: window_def radius_def)

subsection \<open>Rows, chunks and writes\<close>

lemma length_concat_rows:
  assumes "\<And>r. length (f r) = m"
  shows "length (concat (map f [a..<b])) = (b - a) * m"
  by (simp add: length_concat comp_def assms sum_list_triv)

lemma length_blur_row: "length (blur_row rnd src w h ch row) = w * ch"
  by (simp add: blur_row_def length_concat comp_def sum_list_triv)

lemma length_sequential_reference:
  "length (sequential_reference rnd src w h ch) = h * (w * ch)"
  by (simp add: sequential_reference_def length_concat_rows [OF length_blur_row])

lemma chunk_start_Suc:
  "chunk_start h workers (Suc k) = chunk_start h workers k + chunk_size h workers k"
  by (simp add: chunk_start_def)

lemma chunk_start_closed:
  "chunk_start h workers k = k * (h div workers) + min k (h mod workers)"
  by (induction k) (auto simp: chunk_start_Suc chunk_size_def chunk_start_def)

lemma chunk_start_total:
  assumes "1 \<le> workers"
  shows "chunk_start h workers workers = h"
proof -
  from assms have "h mod workers < workers" by simp
  then have "min workers (h mod workers) = h mod workers" by simp
  then show ?thesis by (simp add: chunk_start_closed)
qed

lemma chunk_start_mono:
  assumes "j \<le> k"
  shows "chunk_start h workers j \<le> chunk_start h workers k"
proof -
  from assms have "j * (h div workers) \<le> k * (h div workers)" by (rule mult_le_mono1)
  moreover from assms have "min j (h mod workers) \<le> min k (h mod workers)" by simp
  ultimately show ?thesis by (simp add: chunk_start_closed add_mono)
qed

lemma rows_split:
  assumes "a \<le> b" "b \<le> h"
  shows "concat (map f [0..<h]) =
         concat (map f [0..<a]) @ concat (map f [a..<b]) @ concat (map f [b..<h])"
proof -
  from assms have "[0..<b] = [0..<a] @ [a..<b]"
    using upt_add_eq_append [of 0 a "b - a"] by simp
  moreover from assms have "[0..<h] = [0..<b] @ [b..<h]"
    using upt_add_eq_append [of 0 b "h - b"] by simp
  ultimately show ?thesis by simp
qed

lemma overwrite_nth:
  assumes "off + length bs \<le> length dst" "i < length dst"
  shows "(take off dst @ bs @ drop (off + length bs) dst) ! i =
         (if off \<le> i \<and> i < off + length bs then bs ! (i - off) else dst ! i)"
  using assms by (auto simp: nth_append min_def)


text \<open>The samples of a chunk of rows are a slice of the sequential output.\<close>

lemma chunk_is_slice:
  assumes "a \<le> b" "b \<le> h" "a * (w * ch) \<le> i" "i < b * (w * ch)"
  shows "sequential_reference rnd src w h ch ! i =
         concat (map (blur_row rnd src w h ch) [a..<b]) ! (i - a * (w * ch))"
proof -
  let ?f = "blur_row rnd src w h ch"
  have la: "length (concat (map ?f [0..<a])) = a * (w * ch)"
    using length_concat_rows [of ?f "w * ch" 0 a] by (simp add: length_blur_row)
  have lb: "length (concat (map ?f [a..<b])) = (b - a) * (w * ch)"
    using length_concat_rows [of ?f "w * ch" a b] by (simp add: length_blur_row)
  from assms have "i - a * (w * ch) < (b - a) * (w * ch)"
    by (simp add: diff_mult_distrib less_diff_conv2)
  with assms(3) la lb show ?thesis
    unfolding sequential_reference_def rows_split [OF assms(1,2)]
    by (simp add: nth_append)
qed

lemma worker_effect:
  assumes "k < workers" "length dst = h * (w * ch)"
  shows "\<exists>d. worker rnd workers src w h ch k dst = Some d \<and> length d = length dst \<and>
           (\<forall>i<length dst. d ! i =
              (if chunk_start h workers k * (w * ch) \<le> i \<and>
                  i < chunk_start h workers (Suc k) * (w * ch)
               then sequential_reference rnd src w h ch ! i else dst ! i))"
proof -
  let ?a = "chunk_start h workers k" and ?b = "chunk_start h workers (Suc k)"
  let ?m = "w * ch"
  let ?bs = "concat (map (blur_row rnd src w h ch) [?a..<?b])"
  have ab: "?a \<le> ?b" by (rule chunk_start_mono) simp
  have "?b \<le> chunk_start h workers workers"
    using assms(1) by (intro chunk_start_mono) simp
  with assms(1) have bh: "?b \<le> h" by (simp add: chunk_start_total)
  have lbs: "length ?bs = (?b - ?a) * ?m"
    using length_concat_rows [of "blur_row rnd src w h ch" ?m ?a ?b]
    by (simp add: length_blur_row)
  from ab have end_eq: "?a * ?m + length ?bs = ?b * ?m"
    by (simp add: lbs add_mult_distrib [symmetric])
  from bh have "?b * ?m \<le> h * ?m" by (rule mult_le_mono1)
  with end_eq assms(2) have fits: "?a * ?m + length ?bs \<le> length dst" by simp
  let ?d = "take (?a * ?m) dst @ ?bs @ drop (?a * ?m + length ?bs) dst"
  have w: "worker rnd workers src w h ch k dst = Some ?d"
    using fits by (simp add: worker_def write_rows_def chunk_start_Suc Let_def)
  have len: "length ?d = length dst" using fits by simp
  have nth: "?d ! i = (if ?a * ?m \<le> i \<and> i < ?b * ?m
               then sequential_reference rnd src w h ch ! i else dst ! i)"
    if "i < length dst" for i
    using overwrite_nth [OF fits that] chunk_is_slice [OF ab bh, of w ch i rnd src]
    by (simp add: end_eq)
  from w len nth show ?thesis by blast
qed

lemma fold_workers:
  assumes "set ks \<subseteq> {0..<workers}" "length dst = h * (w * ch)"
  shows "\<exists>d. optimized_parallel rnd workers ks src dst w h ch = Some d \<and> length d = length dst \<and>
           (\<forall>i<length dst. d ! i =
              (if \<exists>k\<in>set ks. chunk_start h workers k * (w * ch) \<le> i \<and>
                    i < chunk_start h workers (Suc k) * (w * ch)
               then sequential_reference rnd src w h ch ! i else dst ! i))"
  using assms
proof (induction ks arbitrary: dst)
  case Nil
  then show ?case by (simp add: optimized_parallel_def)
next
  case (Cons k ks)
  from Cons.prems have k: "k < workers" and ks: "set ks \<subseteq> {0..<workers}" by auto
  from worker_effect [OF k Cons.prems(2), of rnd src]
  obtain d1 where d1: "worker rnd workers src w h ch k dst = Some d1" "length d1 = length dst"
    "\<And>i. i < length dst \<Longrightarrow> d1 ! i =
        (if chunk_start h workers k * (w * ch) \<le> i \<and> i < chunk_start h workers (Suc k) * (w * ch)
         then sequential_reference rnd src w h ch ! i else dst ! i)"
    by blast
  from d1(2) Cons.prems(2) have l1: "length d1 = h * (w * ch)" by simp
  from Cons.IH [OF ks l1]
  obtain d where d: "optimized_parallel rnd workers ks src d1 w h ch = Some d"
    "length d = length d1"
    "\<And>i. i < length d1 \<Longrightarrow> d ! i =
        (if \<exists>k\<in>set ks. chunk_start h workers k * (w * ch) \<le> i \<and>
              i < chunk_start h workers (Suc k) * (w * ch)
         then sequential_reference rnd src w h ch ! i else d1 ! i)"
    by blast
  have "optimized_parallel rnd workers (k # ks) src dst w h ch = Some d"
    using d(1) d1(1) by (simp add: optimized_parallel_def)
  moreover have "length d = length dst" using d(2) d1(2) by simp
  moreover have "d ! i =
        (if \<exists>k'\<in>set (k # ks). chunk_start h workers k' * (w * ch) \<le> i \<and>
              i < chunk_start h workers (Suc k') * (w * ch)
         then sequential_reference rnd src w h ch ! i else dst ! i)" if "i < length dst" for i
    using d(3) [of i] d1(3) [of i] that d1(2) by auto
  ultimately show ?case by blast
qed

lemma chunks_cover:
  assumes "j \<le> workers" "i < chunk_start h workers j * m"
  shows "\<exists>k<j. chunk_start h workers k * m \<le> i \<and> i < chunk_start h workers (Suc k) * m"
  using assms
proof (induction j)
  case 0
  then show ?case by (simp add: chunk_start_def)
next
  case (Suc j)
  show ?case
  proof (cases "i < chunk_start h workers j * m")
    case True
    with Suc obtain k where "k < j" "chunk_start h workers k * m \<le> i"
      "i < chunk_start h workers (Suc k) * m" by auto
    then show ?thesis by (intro exI [of _ k]) simp
  next
    case False
    with Suc.prems show ?thesis by (intro exI [of _ j]) simp
  qed
qed

section \<open>The claims\<close>

text \<open>
  Claim C1, as the code has it: after the comparison the harness overwrites the input
  buffer in place with \<^verbatim>\<open>output1\<close>, the output of the Optimized Parallel routine
  \<^verbatim>\<open>blur5\<close>, and hands that buffer to the store collaborator, whichever verdict was
  printed. The events that follow those of lines 22 to 45 are the verdict line, the copy from
  \<^verbatim>\<open>output1\<close> into the input buffer and the hand-off of exactly those samples.
\<close>

theorem C1_persists_output1:
  assumes "2 \<le> length (args c)" "readImage e (args c ! 0) = Some img" "image_ok img"
  shows "events (main e c) =
           events_before_check e (args c ! 0) (samples img) @
           [Printf (verdict_line (output1_of e img = output2_of e img)),
            Memcpy Data Output1 (samples img),
            WriteImage (args c ! 1) (output1_of e img)] @
           (if writeImage e (args c ! 1) (output1_of e img)
            then [Delete Output1, Delete Output2, Delete Output3] else [])
         \<and> store_calls (main e c) = [(args c ! 1, output1_of e img)]"
proof -
  have g: "geometry_ok img" and l: "length (pixels img) = nat (samples img)"
    using assms(3) by (auto simp: image_ok_def)
  show ?thesis
    by (auto simp: store_calls_def main_events [OF assms(1,2) g] l events_before_check_def)
qed

text \<open>
  The theorem at the two concrete runs: with the verdict "incorrect" and with the verdict
  "correct", the samples handed to the store are those of \<^verbatim>\<open>output1\<close>.
\<close>

theorem C1_persists_output1_witness:
  "2 \<le> length (args ex_cmd) \<and> readImage ex_env_differ (args ex_cmd ! 0) = Some ex_image
   \<and> image_ok ex_image
   \<and> verdict (main ex_env_differ ex_cmd) = [incorrect_line]
   \<and> store_calls (main ex_env_differ ex_cmd) = [(''out.png'', [10, 21])]
   \<and> output1_of ex_env_differ ex_image = [10, 21]
   \<and> readImage ex_env_agree (args ex_cmd ! 0) = Some ex_image
   \<and> verdict (main ex_env_agree ex_cmd) = [correct_line]
   \<and> store_calls (main ex_env_agree ex_cmd) = [(''out.png'', [10, 20])]
   \<and> output1_of ex_env_agree ex_image = [10, 20]"
proof -
  have h: "2 \<le> length (args ex_cmd)" "readImage ex_env_differ (args ex_cmd ! 0) = Some ex_image"
    "readImage ex_env_agree (args ex_cmd ! 0) = Some ex_image"
    by (simp_all add: ex_defs)
  have v: "verdict (main ex_env_differ ex_cmd) = [incorrect_line]"
    "verdict (main ex_env_agree ex_cmd) = [correct_line]"
    by (simp_all add: verdict_def stdout_def ex_differ_run ex_agree_run is_verdict_def
        correct_line_def incorrect_line_def)
  show ?thesis
    using C1_persists_output1 [OF h(1,2) ex_image_ok(1)] C1_persists_output1 [OF h(1,3) ex_image_ok(1)]
      h v ex_image_ok(1) ex_outputs
    by (simp add: ex_cmd_def)
qed

text \<open>
  Claim C1 as stated fails: where the two compared outputs differ, the samples handed to
  the store are not the Sequential Reference's output \<^verbatim>\<open>output2\<close>.
\<close>

theorem C1_counterexample:
  "output2_of ex_env_differ ex_image = [10, 20]
   \<and> store_calls (main ex_env_differ ex_cmd) = [(''out.png'', [10, 21])]
   \<and> store_calls (main ex_env_differ ex_cmd) \<noteq> [(''out.png'', output2_of ex_env_differ ex_image)]"
  by (simp add: store_calls_def ex_differ_run ex_outputs)

text \<open>
  Claim C2: the verdict is "incorrect" if and only if some index \<open>0 \<le> i < w*h*ch\<close>
  holds different samples in \<^verbatim>\<open>output1\<close> and \<^verbatim>\<open>output2\<close>; it is "correct" if and
  only if no index does; and when there is a mismatch, the loop leaves through
  \<^verbatim>\<open>break\<close> with its counter at the first mismatching index, every index before it
  holding equal samples. The geometry is one whose sample count fits the loop's
  \<^verbatim>\<open>int\<close> counter.
\<close>

theorem C2_verdict_iff_mismatch:
  assumes "2 \<le> length (args c)" "readImage e (args c ! 0) = Some img" "geometry_ok img"
  shows "(verdict (main e c) = [incorrect_line]) =
           (\<exists>i. 0 \<le> i \<and> i < samples img \<and> output1_of e img ! nat i \<noteq> output2_of e img ! nat i)
         \<and> (verdict (main e c) = [correct_line]) =
           (\<forall>i. 0 \<le> i \<and> i < samples img \<longrightarrow> output1_of e img ! nat i = output2_of e img ! nat i)
         \<and> ((\<exists>i. 0 \<le> i \<and> i < samples img \<and> output1_of e img ! nat i \<noteq> output2_of e img ! nat i) \<longrightarrow>
            (\<exists>k. check_loop (output1_of e img) (output2_of e img) (samples img) 0 = Inr (False, k)
               \<and> 0 \<le> k \<and> k < samples img
               \<and> output1_of e img ! nat k \<noteq> output2_of e img ! nat k
               \<and> (\<forall>j. 0 \<le> j \<and> j < k \<longrightarrow> output1_of e img ! nat j = output2_of e img ! nat j)))"
proof -
  let ?o1 = "output1_of e img" and ?o2 = "output2_of e img" and ?n = "samples img"
  note g = geometry_okD [OF assms(3)]
  have d: "(?o1 \<noteq> ?o2) = (\<exists>i. 0 \<le> i \<and> i < ?n \<and> ?o1 ! nat i \<noteq> ?o2 ! nat i)"
    by (rule buffers_differ_iff) simp_all
  have v: "verdict (main e c) = [verdict_line (?o1 = ?o2)]"
    by (rule verdict_main [OF assms])
  have a: "(verdict (main e c) = [incorrect_line]) = (?o1 \<noteq> ?o2)"
    by (simp add: v verdict_line_def)
  have b: "(verdict (main e c) = [correct_line]) = (?o1 = ?o2)"
    by (simp add: v verdict_line_def)
  have stop: "\<exists>k. check_loop ?o1 ?o2 ?n 0 = Inr (False, k) \<and> 0 \<le> k \<and> k < ?n
      \<and> ?o1 ! nat k \<noteq> ?o2 ! nat k \<and> (\<forall>j. 0 \<le> j \<and> j < k \<longrightarrow> ?o1 ! nat j = ?o2 ! nat j)"
    if "?o1 \<noteq> ?o2"
  proof -
    have "length ?o1 = length ?o2" by simp
    from first_mismatch_exists [OF this that]
    obtain k where k: "k < length ?o1" "?o1 ! k \<noteq> ?o2 ! k" "\<And>j. j < k \<Longrightarrow> ?o1 ! j = ?o2 ! j"
      by blast
    have eq: "?o1 ! nat j = ?o2 ! nat j" if "0 \<le> j" "j < int k" for j
      using that k(3) [of "nat j"] by simp
    have "check_loop ?o1 ?o2 ?n 0 = Inr (False, int k)"
      by (rule check_loop_first_mismatch) (use g k eq in auto)
    with k eq show ?thesis by (intro exI [of _ "int k"]) auto
  qed
  from a b d stop show ?thesis by auto
qed

text \<open>The theorem at the run whose outputs differ in the second sample only.\<close>

theorem C2_verdict_iff_mismatch_witness:
  "2 \<le> length (args ex_cmd) \<and> readImage ex_env_differ (args ex_cmd ! 0) = Some ex_image
   \<and> geometry_ok ex_image
   \<and> verdict (main ex_env_differ ex_cmd) = [incorrect_line]
   \<and> output1_of ex_env_differ ex_image ! nat 1 \<noteq> output2_of ex_env_differ ex_image ! nat 1
   \<and> output1_of ex_env_differ ex_image ! nat 0 = output2_of ex_env_differ ex_image ! nat 0
   \<and> check_loop (output1_of ex_env_differ ex_image) (output2_of ex_env_differ ex_image)
        (samples ex_image) 0 = Inr (False, 1)"
proof -
  have h: "2 \<le> length (args ex_cmd)" "readImage ex_env_differ (args ex_cmd ! 0) = Some ex_image"
    by (simp_all add: ex_defs)
  have m: "\<exists>i. 0 \<le> i \<and> i < samples ex_image \<and>
      output1_of ex_env_differ ex_image ! nat i \<noteq> output2_of ex_env_differ ex_image ! nat i"
    by (rule exI [of _ 1]) (simp add: ex_outputs ex_image_ok)
  have l: "check_loop (output1_of ex_env_differ ex_image) (output2_of ex_env_differ ex_image)
        (samples ex_image) 0 = Inr (False, 1)"
    by (simp add: ex_outputs ex_image_ok check_loop.simps INT_MAX_def)
  show ?thesis
    using C2_verdict_iff_mismatch [OF h ex_image_ok(2)] m h l ex_image_ok(2)
    by (simp add: ex_outputs)
qed

text \<open>
  Claim C3: for every source buffer of valid geometry, every rounding rule, every number
  of workers from 1 on and every order in which the workers' writes land, the Optimized
  Parallel variant returns without a defect and its output buffer equals the Sequential
  Reference's output buffer, which has a sample for every sample of the source.
\<close>

theorem C3_parallel_equals_sequential:
  assumes "valid_geometry src w h ch" "1 \<le> workers" "set sched = {0..<workers}"
    and "length dst = w * h * ch"
  shows "optimized_parallel rnd workers sched src dst w h ch =
           Some (sequential_reference rnd src w h ch)
         \<and> length (sequential_reference rnd src w h ch) = length src"
proof -
  let ?S = "sequential_reference rnd src w h ch"
  have l: "length dst = h * (w * ch)" using assms(4) by (simp add: mult.commute mult.left_commute)
  from assms(3) have "set sched \<subseteq> {0..<workers}" by simp
  from fold_workers [OF this l, of rnd src]
  obtain d where d: "optimized_parallel rnd workers sched src dst w h ch = Some d"
    "length d = length dst"
    "\<And>i. i < length dst \<Longrightarrow> d ! i =
        (if \<exists>k\<in>set sched. chunk_start h workers k * (w * ch) \<le> i \<and>
              i < chunk_start h workers (Suc k) * (w * ch)
         then ?S ! i else dst ! i)"
    by blast
  have "d = ?S"
  proof (rule nth_equalityI)
    show "length d = length ?S" using d(2) l by (simp add: length_sequential_reference)
  next
    fix i assume "i < length d"
    with d(2) l have i: "i < length dst" "i < chunk_start h workers workers * (w * ch)"
      using assms(2) by (simp_all add: chunk_start_total)
    from chunks_cover [OF le_refl i(2)] assms(3)
    have "\<exists>k\<in>set sched. chunk_start h workers k * (w * ch) \<le> i \<and>
              i < chunk_start h workers (Suc k) * (w * ch)" by auto
    with d(3) [OF i(1)] show "d ! i = ?S ! i" by simp
  qed
  moreover have "length ?S = length src"
    using assms(1) by (simp add: length_sequential_reference valid_geometry_def mult.commute)
  ultimately show ?thesis using d(1) by simp
qed

text \<open>
  The theorem on a 1 by 4 image of one channel, three workers with chunks of 2, 1 and 1
  rows finishing in the order 2, 0, 1.
\<close>

theorem C3_parallel_equals_sequential_witness:
  "valid_geometry [0, 10, 20, 60] 1 4 1 \<and> (1::nat) \<le> 3 \<and> set [2, 0, 1] = {0..<3::nat}
   \<and> length [7, 7, 7, 7 :: byte] = 1 * 4 * 1
   \<and> sequential_reference Truncate [0, 10, 20, 60] 1 4 1 = [10, 22, 22, 30]
   \<and> optimized_parallel Truncate 3 [2, 0, 1] [0, 10, 20, 60] [7, 7, 7, 7] 1 4 1
       = Some [10, 22, 22, 30]"
proof -
  have h: "valid_geometry [0, 10, 20, 60] 1 4 1" "(1::nat) \<le> 3" "set [2, 0, 1] = {0..<3::nat}"
    "length [7, 7, 7, 7 :: byte] = 1 * 4 * 1"
    by (auto simp: valid_geometry_def)
  have s: "sequential_reference Truncate [0, 10, 20, 60] 1 4 1 = [10, 22, 22, 30]"
    by code_simp
  show ?thesis
    using C3_parallel_equals_sequential [OF h, of Truncate] h s by simp
qed

text \<open>
  Claim C4, as the code has it: only \<^verbatim>\<open>blur5\<close>, the Optimized Parallel routine, is
  called once before any clock read (into \<^verbatim>\<open>output3\<close>, which the harness never reads)
  and then once between two clock reads; \<^verbatim>\<open>blur5_serial\<close> and \<^verbatim>\<open>blur5_parallel\<close>
  are each called exactly once, between two clock reads.
\<close>

theorem C4_warmup_only_blur5:
  assumes "2 \<le> length (args c)" "readImage e (args c ! 0) = Some img" "geometry_ok img"
  shows "filter is_call_or_clock (events (main e c)) =
           [Call Blur5 Data Output3,
            Wtime, Call Blur5 Data Output1, Wtime,
            Wtime, Call Blur5_serial Data Output2, Wtime,
            Wtime, Call Blur5_parallel Data Output3, Wtime]
         \<and> invocations Blur5 (main e c) = 2
         \<and> invocations Blur5_serial (main e c) = 1
         \<and> invocations Blur5_parallel (main e c) = 1"
  by (auto simp: invocations_def main_events [OF assms] events_before_check_def)

text \<open>
The theorem at the concrete run whose outputs agree.
\<close>

theorem C4_warmup_only_blur5_witness:
  "2 \<le> length (args ex_cmd) \<and> readImage ex_env_agree (args ex_cmd ! 0) = Some ex_image
   \<and> geometry_ok ex_image
   \<and> filter is_call_or_clock (events (main ex_env_agree ex_cmd)) =
           [Call Blur5 Data Output3,
            Wtime, Call Blur5 Data Output1, Wtime,
            Wtime, Call Blur5_serial Data Output2, Wtime,
            Wtime, Call Blur5_parallel Data Output3, Wtime]
   \<and> invocations Blur5 (main ex_env_agree ex_cmd) = 2"
proof -
  have h: "2 \<le> length (args ex_cmd)" "readImage ex_env_agree (args ex_cmd ! 0) = Some ex_image"
    by (simp_all add: ex_defs)
  show ?thesis
    using C4_warmup_only_blur5 [OF h ex_image_ok(2)] h ex_image_ok(2) by simp
qed

text \<open>
  Claim C4 as stated fails: in a complete run the Sequential Reference and the Naive
  Parallel routine are each invoked once, not twice, and the only call outside a pair of
  clock reads is the first call of \<^verbatim>\<open>blur5\<close>.
\<close>

theorem C4_counterexample:
  "exit_status (main ex_env_agree ex_cmd) = Exited 0
   \<and> invocations Blur5_serial (main ex_env_agree ex_cmd) = 1
   \<and> invocations Blur5_parallel (main ex_env_agree ex_cmd) = 1
   \<and> filter is_call_or_clock (events (main ex_env_agree ex_cmd)) =
         [Call Blur5 Data Output3,
          Wtime, Call Blur5 Data Output1, Wtime,
          Wtime, Call Blur5_serial Data Output2, Wtime,
          Wtime, Call Blur5_parallel Data Output3, Wtime]"
  by (simp add: invocations_def ex_agree_run)

text \<open>
  Claim C5: the verdict is the comparison of the buffer that \<^verbatim>\<open>blur5\<close> filled in its
  timed call with the buffer that \<^verbatim>\<open>blur5_serial\<close> filled, and of nothing else; the
  Naive Parallel routine is called between two clock reads and its duration is printed
  (events 14 to 17 of the run), and replacing it by any other routine leaves the verdict
  as it is.
\<close>

theorem C5_only_blur5_is_checked:
  assumes "2 \<le> length (args c)" "readImage e (args c ! 0) = Some img" "geometry_ok img"
  shows "verdict (main e c) =
           [verdict_line
              (call (blur5 e) (pixels img) (new_array e Output1 (samples img))
                 (width img) (height img) (channels img) =
               call (blur5_serial e) (pixels img) (new_array e Output2 (samples img))
                 (width img) (height img) (channels img))]
         \<and> take 4 (drop 14 (events (main e c))) =
           [Wtime, Call Blur5_parallel Data Output3, Wtime,
            Printf (TimeTaken ''baseline parallel blur5'' (omp_get_wtime e 5 - omp_get_wtime e 4))]
         \<and> (\<forall>p. verdict (main (e\<lparr>blur5_parallel := p\<rparr>) c) = verdict (main e c))"
proof -
  have "verdict (main e c) = [verdict_line (output1_of e img = output2_of e img)]"
    by (rule verdict_main [OF assms])
  moreover have "take 4 (drop 14 (events (main e c))) =
           [Wtime, Call Blur5_parallel Data Output3, Wtime,
            Printf (TimeTaken ''baseline parallel blur5'' (omp_get_wtime e 5 - omp_get_wtime e 4))]"
    by (simp add: main_events [OF assms] events_before_check_def)
  ultimately show ?thesis
    by (simp add: main_ignores_blur5_parallel output1_of_def output2_of_def)
qed

text \<open>
  The theorem at the run whose compared outputs differ: the Naive Parallel output equals
  the Sequential Reference's there, and the verdict is "incorrect" all the same, also
  with the Naive Parallel routine replaced by \<^verbatim>\<open>blur5\<close>.
\<close>

theorem C5_only_blur5_is_checked_witness:
  "2 \<le> length (args ex_cmd) \<and> readImage ex_env_differ (args ex_cmd ! 0) = Some ex_image
   \<and> geometry_ok ex_image
   \<and> verdict (main ex_env_differ ex_cmd) = [incorrect_line]
   \<and> output3_of ex_env_differ ex_image = output2_of ex_env_differ ex_image
   \<and> verdict (main (ex_env_differ\<lparr>blur5_parallel := blur5 ex_env_differ\<rparr>) ex_cmd) = [incorrect_line]"
proof -
  have h: "2 \<le> length (args ex_cmd)" "readImage ex_env_differ (args ex_cmd ! 0) = Some ex_image"
    by (simp_all add: ex_defs)
  have o: "output3_of ex_env_differ ex_image = [10, 20]"
    by (simp add: output3_of_def warmup_of_def ex_defs samples_def call_def new_array_def
        eval_nat_numeral)
  show ?thesis
    using C5_only_blur5_is_checked [OF h ex_image_ok(2)] h ex_image_ok(2) o
    by (simp add: ex_outputs verdict_line_def
        output1_of_def [symmetric] output2_of_def [symmetric])
qed

text \<open>
  Claim C6: with fewer than two positional arguments the only thing the process does is
  print the usage message to the error stream; \<^verbatim>\<open>main\<close> returns -1, a non-zero
  status, and no image is loaded and no buffer allocated.
\<close>

theorem C6_usage_error:
  assumes "length (args c) < 2"
  shows "events (main e c) = [Fprintf_stderr (usage (argv0 c))]
         \<and> exit_status (main e c) = Exited (- 1)
         \<and> exit_status (main e c) \<noteq> Exited 0"
  using assms by (simp add: main_def argc_def)

text \<open>
The theorem at a command line with one positional argument.
\<close>

theorem C6_usage_error_witness:
  "length (args ex_cmd_short) < 2
   \<and> events (main ex_env_agree ex_cmd_short) = [Fprintf_stderr ''Usage: blur inFilename outFilename'']
   \<and> exit_status (main ex_env_agree ex_cmd_short) = Exited (- 1)"
proof -
  have h: "length (args ex_cmd_short) < 2" by (simp add: ex_cmd_short_def)
  show ?thesis
    using C6_usage_error [OF h, of ex_env_agree] h by (simp add: usage_def ex_cmd_short_def)
qed

text \<open>
  Claim C7: a run that gets as far as the verdict has written to standard output the
  duration of \<^verbatim>\<open>blur5\<close>, then that of \<^verbatim>\<open>blur5_serial\<close>, then that of
  \<^verbatim>\<open>blur5_parallel\<close>, then one verdict line; the two lines in between are progress
  messages, neither a duration nor a verdict.
\<close>

theorem C7_output_order:
  assumes "2 \<le> length (args c)" "readImage e (args c ! 0) = Some img" "geometry_ok img"
  shows "stdout (main e c) =
           [TimeTaken ''blur5'' (omp_get_wtime e 1 - omp_get_wtime e 0),
            Text ''Running serial and baseline parallel for comparison...'',
            TimeTaken ''serial blur5'' (omp_get_wtime e 3 - omp_get_wtime e 2),
            TimeTaken ''baseline parallel blur5'' (omp_get_wtime e 5 - omp_get_wtime e 4),
            Text ''Checking results for comparison...'',
            verdict_line (output1_of e img = output2_of e img)]
         \<and> filter (\<lambda>l. is_duration l \<or> is_verdict l) (stdout (main e c)) =
           [TimeTaken ''blur5'' (omp_get_wtime e 1 - omp_get_wtime e 0),
            TimeTaken ''serial blur5'' (omp_get_wtime e 3 - omp_get_wtime e 2),
            TimeTaken ''baseline parallel blur5'' (omp_get_wtime e 5 - omp_get_wtime e 4),
            verdict_line (output1_of e img = output2_of e img)]
         \<and> is_verdict (verdict_line (output1_of e img = output2_of e img))"
  by (simp add: stdout_main [OF assms])

text \<open>
The theorem at the concrete run whose outputs agree, the clock advancing by one second per read.
\<close>

theorem C7_output_order_witness:
  "2 \<le> length (args ex_cmd) \<and> readImage ex_env_agree (args ex_cmd ! 0) = Some ex_image
   \<and> geometry_ok ex_image
   \<and> stdout (main ex_env_agree ex_cmd) =
           [TimeTaken ''blur5'' 1,
            Text ''Running serial and baseline parallel for comparison...'',
            TimeTaken ''serial blur5'' 1,
            TimeTaken ''baseline parallel blur5'' 1,
            Text ''Checking results for comparison...'',
            Text ''Code results are correct.'']"
proof -
  have h: "2 \<le> length (args ex_cmd)" "readImage ex_env_agree (args ex_cmd ! 0) = Some ex_image"
    by (simp_all add: ex_defs)
  have t: "omp_get_wtime ex_env_agree k = real k" for k
    by (simp add: ex_env_agree_def)
  show ?thesis
    using C7_output_order [OF h ex_image_ok(2)] h ex_image_ok(2)
    by (simp add: ex_outputs verdict_line_def correct_line_def t)
qed

text \<open>
  Claim C8: with two positional arguments, an image loaded with a well-formed buffer and
  a store that succeeds, \<^verbatim>\<open>main\<close> returns 0, whatever the verdict.
\<close>

theorem C8_exit_zero:
  assumes "2 \<le> length (args c)" "readImage e (args c ! 0) = Some img" "image_ok img"
    and "writeImage e (args c ! 1) (output1_of e img)"
  shows "exit_status (main e c) = Exited 0"
  by (rule main_exit [OF assms])

text \<open>
The theorem at both concrete runs: verdict "correct" and verdict "incorrect", exit status 0 in each.
\<close>

theorem C8_exit_zero_witness:
  "2 \<le> length (args ex_cmd) \<and> image_ok ex_image
   \<and> readImage ex_env_agree (args ex_cmd ! 0) = Some ex_image
   \<and> writeImage ex_env_agree (args ex_cmd ! 1) (output1_of ex_env_agree ex_image)
   \<and> verdict (main ex_env_agree ex_cmd) = [correct_line]
   \<and> exit_status (main ex_env_agree ex_cmd) = Exited 0
   \<and> readImage ex_env_differ (args ex_cmd ! 0) = Some ex_image
   \<and> writeImage ex_env_differ (args ex_cmd ! 1) (output1_of ex_env_differ ex_image)
   \<and> verdict (main ex_env_differ ex_cmd) = [incorrect_line]
   \<and> exit_status (main ex_env_differ ex_cmd) = Exited 0"
proof -
  have h: "2 \<le> length (args ex_cmd)"
    "readImage ex_env_agree (args ex_cmd ! 0) = Some ex_image"
    "writeImage ex_env_agree (args ex_cmd ! 1) (output1_of ex_env_agree ex_image)"
    "readImage ex_env_differ (args ex_cmd ! 0) = Some ex_image"
    "writeImage ex_env_differ (args ex_cmd ! 1) (output1_of ex_env_differ ex_image)"
    by (simp_all add: ex_env_agree_def ex_env_differ_def ex_cmd_def)
  have v: "verdict (main ex_env_agree ex_cmd) = [correct_line]"
    "verdict (main ex_env_differ ex_cmd) = [incorrect_line]"
    by (simp_all add: verdict_main [OF h(1,2) ex_image_ok(2)] verdict_main [OF h(1,4) ex_image_ok(2)]
        ex_outputs verdict_line_def)
  show ?thesis
    using C8_exit_zero [OF h(1,2) ex_image_ok(1) h(3)] C8_exit_zero [OF h(1,4) ex_image_ok(1) h(5)]
      h v ex_image_ok(1)
    by simp
qed

text \<open>
  Claim C9: two runs that differ only in what \<^verbatim>\<open>blur5_parallel\<close> writes into its
  output buffer print the same verdict and hand the same samples to the store.
\<close>

theorem C9_independent_of_blur5_parallel:
  "verdict (main (e\<lparr>blur5_parallel := p\<rparr>) c) = verdict (main (e\<lparr>blur5_parallel := p'\<rparr>) c)
   \<and> store_calls (main (e\<lparr>blur5_parallel := p\<rparr>) c) =
       store_calls (main (e\<lparr>blur5_parallel := p'\<rparr>) c)"
  by (simp add: main_ignores_blur5_parallel)

text \<open>
  Claim C10: when \<^verbatim>\<open>w*h*ch\<close> is 0 the loop leaves at once with \<^verbatim>\<open>success\<close> still
  true and its counter at 0, whatever the two buffers are, so that no element is read;
  the compared buffers are empty and the verdict is "correct".
\<close>

theorem C10_empty_buffer:
  assumes "2 \<le> length (args c)" "readImage e (args c ! 0) = Some img"
    and "sample_count (width img) (height img) (channels img) = Inr 0"
  shows "check_loop o1 o2 0 0 = Inr (True, 0)
         \<and> output1_of e img = [] \<and> output2_of e img = []
         \<and> verdict (main e c) = [correct_line]"
proof -
  have s: "samples img = 0"
    using assms(3) by (auto simp: sample_count_def long_mul_def samples_def split: if_splits)
  have g: "geometry_ok img"
    using assms(3) by (simp add: geometry_ok_def INT_MAX_def)
  have e: "output1_of e img = []" "output2_of e img = []"
    by (simp_all add: output1_of_def output2_of_def s call_def new_array_def)
  show ?thesis
    by (simp add: check_loop.simps verdict_main [OF assms(1,2) g] e verdict_line_def)
qed

text \<open>
  The theorem at an image of width 0, where \<^verbatim>\<open>blur5\<close> and \<^verbatim>\<open>blur5_serial\<close> would
  disagree on every sample they were asked for.
\<close>

theorem C10_empty_buffer_witness:
  "2 \<le> length (args ex_cmd) \<and> readImage ex_env_empty (args ex_cmd ! 0) = Some ex_empty_image
   \<and> sample_count (width ex_empty_image) (height ex_empty_image) (channels ex_empty_image) = Inr 0
   \<and> blur5 ex_env_empty [] [] 0 3 3 0 \<noteq> blur5_serial ex_env_empty [] [] 0 3 3 0
   \<and> check_loop [] [] 0 0 = Inr (True, 0)
   \<and> verdict (main ex_env_empty ex_cmd) = [correct_line]"
proof -
  have h: "2 \<le> length (args ex_cmd)" "readImage ex_env_empty (args ex_cmd ! 0) = Some ex_empty_image"
    "sample_count (width ex_empty_image) (height ex_empty_image) (channels ex_empty_image) = Inr 0"
    by (simp_all add: ex_defs sample_count_def long_mul_def LONG_MAX_def)
  show ?thesis
    using C10_empty_buffer [OF h, of "[]" "[]"] h by (simp add: ex_env_empty_def)
qed

end
